theory Spec2Isabelle
  imports Main "HOL-Library.AList" "HOL-Library.Sublist"
begin

section \<open>Wallpaper rotator: the data the program handles\<close>

text \<open>
  The program (\<^verbatim>\<open>wallpaper_rotator.py\<close>) keeps its rotation state in a JSON file and
  handles it as a Python \<^verbatim>\<open>dict\<close>, exactly as \<^verbatim>\<open>json.load\<close> returns it. Nothing checks
  the types of the values, so the model keeps them dynamic: a \<open>pyval\<close> is a value that
  \<^verbatim>\<open>json.load\<close> can return. JSON numbers with a fraction or an exponent (Python floats) are
  left out: floating point arithmetic is not embedded, and the program never writes one.
  A \<^verbatim>\<open>dict\<close> is an association list in insertion order, which is also the order in which
  \<^verbatim>\<open>json.dump\<close> writes the keys.
\<close>

datatype pyval =
    PNone
  | PBool bool
  | PInt int
  | PStr string
  | PList "pyval list"
  | PDict "(string \<times> pyval) list"

type_synonym pydict = "(string \<times> pyval) list"

type_synonym path = string

text \<open>The exceptions that the modelled code can meet.\<close>

datatype exn =
    UnicodeDecodeError
  | AttributeError
  | TypeError
  | ValueError
  | IndexError
  | OSError
  | RuntimeError
  | TimeoutExpired
  | PermissionError
  | RecursionError
  | UnicodeEncodeError

text \<open>
  What \<^verbatim>\<open>self.state_file.exists()\<close>, \<^verbatim>\<open>open(self.state_file, "r")\<close> and \<^verbatim>\<open>json.load(f)\<close>
  make of the state file:
  \<^item> \<open>Missing\<close>: \<^verbatim>\<open>exists()\<close> is false;
  \<^item> \<open>Unreadable\<close>: opening or reading raises \<^verbatim>\<open>IOError\<close> (an alias of \<^verbatim>\<open>OSError\<close>);
  \<^item> \<open>Undecodable\<close>: the bytes are not text in the encoding of \<^verbatim>\<open>open\<close>, and reading
    raises \<^verbatim>\<open>UnicodeDecodeError\<close>, a \<^verbatim>\<open>ValueError\<close> that is neither a
    \<^verbatim>\<open>json.JSONDecodeError\<close> nor an \<^verbatim>\<open>IOError\<close>;
  \<^item> \<open>Malformed\<close>: the text is not a JSON document, and \<^verbatim>\<open>json.load\<close> raises
    \<^verbatim>\<open>json.JSONDecodeError\<close>;
  \<^item> \<open>Holds v\<close>: the file is a JSON document, and \<^verbatim>\<open>json.load\<close> returns \<open>v\<close>;
  \<^item> \<open>Inaccessible\<close>: \<^verbatim>\<open>exists()\<close> itself raises \<^verbatim>\<open>PermissionError\<close> (the folder of the
    file cannot be searched, and \<^verbatim>\<open>Path.exists\<close> lets the error through), outside the
    \<^verbatim>\<open>try\<close>;
  \<^item> \<open>TooDeep\<close>: the text nests brackets deeper than the interpreter's recursion
    limit, and \<^verbatim>\<open>json.load\<close> raises \<^verbatim>\<open>RecursionError\<close>;
  \<^item> \<open>TooLong\<close>: the text holds an integer literal with more digits than the
    interpreter converts, and \<^verbatim>\<open>json.load\<close> raises a plain \<^verbatim>\<open>ValueError\<close>.
\<close>

datatype state_file =
    Missing
  | Unreadable
  | Undecodable
  | Malformed
  | Holds pyval
  | Inaccessible
  | TooDeep
  | TooLong

text \<open>
  The part of the machine that the rotation state manager reads and writes:
  \<^item> \<open>image_files\<close> is what \<^verbatim>\<open>get_image_files()\<close> returns, the sorted listing of the
    supported images of the folder. The state file is not one of them, so that saving
    the state leaves the listing as it is: this is so for its default name, which ends
    in \<^verbatim>\<open>.json\<close>, and for every \<^verbatim>\<open>state_file\<close> argument that is outside the folder or has
    no supported image suffix;
  \<^item> \<open>state_file\<close> is the state file;
  \<^item> \<open>writable\<close> says whether \<^verbatim>\<open>open(self.state_file, "w")\<close> succeeds; when it does not,
    \<^verbatim>\<open>save_state\<close> catches the \<^verbatim>\<open>IOError\<close>, prints a warning and the file stays as it was.
  The messages the rotation state manager prints are not modelled.
\<close>

record world =
  image_files :: "path list"
  state_file :: state_file
  writable :: bool

section \<open>Python operations on dynamic values\<close>

text \<open>\<^verbatim>\<open>d.get(key, default)\<close>.\<close>

definition dict_get :: "pydict \<Rightarrow> string \<Rightarrow> pyval \<Rightarrow> pyval" where
  "dict_get d k dflt = (case map_of d k of None \<Rightarrow> dflt | Some v \<Rightarrow> v)"

text \<open>
  \<^verbatim>\<open>n != v\<close> for an \<^verbatim>\<open>int\<close> \<open>n\<close>: an int equals an int of the same value and the bool of
  the same value (\<^verbatim>\<open>True == 1\<close>, \<^verbatim>\<open>False == 0\<close>), and nothing else of what JSON holds.
\<close>

fun int_ne :: "int \<Rightarrow> pyval \<Rightarrow> bool" where
  "int_ne n (PInt m) = (n \<noteq> m)"
| "int_ne n (PBool b) = (n \<noteq> (if b then 1 else 0))"
| "int_ne n _ = True"

text \<open>\<^verbatim>\<open>v + 1\<close>: defined on ints and bools, a \<^verbatim>\<open>TypeError\<close> on everything else.\<close>

fun add_one :: "pyval \<Rightarrow> exn + int" where
  "add_one (PInt k) = Inr (k + 1)"
| "add_one (PBool b) = Inr ((if b then 1 else 0) + 1)"
| "add_one _ = Inl TypeError"

text \<open>
  \<^verbatim>\<open>xs[i]\<close> for an \<^verbatim>\<open>int\<close> \<open>i\<close>, as line 204 reads the listing: positions \<open>0\<close> to
  \<open>len(xs) - 1\<close> from the front, \<open>-1\<close> down to \<open>-len(xs)\<close> from the back, and
  \<^verbatim>\<open>IndexError\<close> for every other \<open>i\<close>.
\<close>

definition getitem :: "'a list \<Rightarrow> int \<Rightarrow> exn + 'a" where
  "getitem xs i =
     (if 0 \<le> i \<and> i < int (length xs) then Inr (xs ! nat i)
      else if - int (length xs) \<le> i \<and> i < 0 then Inr (xs ! nat (int (length xs) + i))
      else Inl IndexError)"

text \<open>
  \<^verbatim>\<open>random.choice(xs)\<close> is \<^verbatim>\<open>xs[self._randbelow(len(xs))]\<close>, and raises \<^verbatim>\<open>IndexError\<close> on
  an empty sequence. The generator is a parameter of the model: \<open>r\<close> is its next draw,
  and \<^verbatim>\<open>_randbelow(n)\<close> is \<open>r mod n\<close>, so every position of \<open>xs\<close> is the choice of
  some \<open>r\<close>.
\<close>

definition random_choice :: "nat \<Rightarrow> 'a list \<Rightarrow> exn + 'a" where
  "random_choice r xs = (if xs = [] then Inl IndexError else Inr (xs ! (r mod length xs)))"

section \<open>Rotation state manager\<close>

definition default_state :: pydict where
  "default_state =
     [(''current_index'', PInt (- 1)),
      (''last_wallpaper'', PNone),
      (''image_count'', PInt 0),
      (''order'', PStr ''sequential'')]"

text \<open>
  \<^verbatim>\<open>load_state\<close>: the default state when the file does not exist; otherwise what
  \<^verbatim>\<open>json.load\<close> returns, with \<^verbatim>\<open>json.JSONDecodeError\<close> and \<^verbatim>\<open>IOError\<close> caught and answered
  by the default state. Any other exception leaves the function, and so does an
  exception of \<^verbatim>\<open>exists()\<close>, which is called before the \<^verbatim>\<open>try\<close>.
\<close>

definition load_state :: "world \<Rightarrow> exn + pyval" where
  "load_state w =
     (case state_file w of
        Missing \<Rightarrow> Inr (PDict default_state)
      | Unreadable \<Rightarrow> Inr (PDict default_state)
      | Malformed \<Rightarrow> Inr (PDict default_state)
      | Undecodable \<Rightarrow> Inl UnicodeDecodeError
      | Holds v \<Rightarrow> Inr v
      | Inaccessible \<Rightarrow> Inl PermissionError
      | TooDeep \<Rightarrow> Inl RecursionError
      | TooLong \<Rightarrow> Inl ValueError)"

text \<open>\<^verbatim>\<open>save_state\<close>: writes the dict, or warns and carries on.\<close>

definition save_state :: "pydict \<Rightarrow> world \<Rightarrow> world" where
  "save_state state w = (if writable w then w\<lparr>state_file := Holds (PDict state)\<rparr> else w)"

text \<open>
  Lines 183 to 188 of \<^verbatim>\<open>get_next_wallpaper\<close>: the index the selection starts from, which
  is the persisted one unless the number of images differs from the persisted count.
\<close>

definition current_index :: "nat \<Rightarrow> pydict \<Rightarrow> pyval" where
  "current_index n state =
     (if int_ne (int n) (dict_get state ''image_count'' (PInt 0)) then PInt (- 1)
      else dict_get state ''current_index'' (PInt (- 1)))"

text \<open>
  Lines 190 to 201: the next index among \<open>n\<close> images, from the starting index \<open>cur\<close>.
  Every order other than \<^verbatim>\<open>"random"\<close> takes the sequential branch.
\<close>

definition available_indices :: "nat \<Rightarrow> pyval \<Rightarrow> int list" where
  "available_indices n cur = filter (\<lambda>i. int_ne i cur) (map int [0..<n])"

definition next_index :: "nat \<Rightarrow> string \<Rightarrow> nat \<Rightarrow> pyval \<Rightarrow> exn + int" where
  "next_index r order n cur =
     (if order = ''random'' then
        (if n > 1 then random_choice r (available_indices n cur) else Inr 0)
      else
        (case add_one cur of Inl e \<Rightarrow> Inl e | Inr k \<Rightarrow> Inr (k mod int n)))"

text \<open>\<^verbatim>\<open>state.update({...})\<close> of lines 205 to 212: four keys, set in this order.\<close>

definition update_state :: "int \<Rightarrow> path \<Rightarrow> nat \<Rightarrow> string \<Rightarrow> pydict \<Rightarrow> pydict" where
  "update_state i p n order state =
     AList.update ''order'' (PStr order)
       (AList.update ''image_count'' (PInt (int n))
         (AList.update ''last_wallpaper'' (PStr p)
           (AList.update ''current_index'' (PInt i) state)))"

text \<open>
  \<^verbatim>\<open>get_next_wallpaper\<close>: the result is \<open>Inr None\<close> for Python's \<^verbatim>\<open>None\<close>,
  \<open>Inr (Some p)\<close> for a path and \<open>Inl e\<close> for an exception that leaves the function.
  A state that is not a dict has no \<^verbatim>\<open>get\<close>: \<^verbatim>\<open>AttributeError\<close>.
\<close>

definition get_next_wallpaper :: "nat \<Rightarrow> string \<Rightarrow> world \<Rightarrow> (exn + path option) \<times> world" where
  "get_next_wallpaper r order w =
     (if image_files w = [] then (Inr None, w)
      else
        (case load_state w of
           Inl e \<Rightarrow> (Inl e, w)
         | Inr (PDict state) \<Rightarrow>
             (let n = length (image_files w) in
              case next_index r order n (current_index n state) of
                Inl e \<Rightarrow> (Inl e, w)
              | Inr i \<Rightarrow>
                  (case getitem (image_files w) i of
                     Inl e \<Rightarrow> (Inl e, w)
                   | Inr next_wallpaper \<Rightarrow>
                       (Inr (Some next_wallpaper),
                        save_state (update_state i next_wallpaper n order state) w)))
         | Inr _ \<Rightarrow> (Inl AttributeError, w)))"

text \<open>
  \<^verbatim>\<open>set_order\<close> and \<^verbatim>\<open>reset_rotation\<close>. Assigning to a key of a state that is not a dict
  raises \<^verbatim>\<open>TypeError\<close>.
\<close>

definition set_order :: "string \<Rightarrow> world \<Rightarrow> (exn + unit) \<times> world" where
  "set_order order w =
     (if order \<notin> set [''sequential'', ''random''] then (Inl ValueError, w)
      else
        (case load_state w of
           Inl e \<Rightarrow> (Inl e, w)
         | Inr (PDict state) \<Rightarrow>
             (Inr (), save_state (AList.update ''order'' (PStr order) state) w)
         | Inr _ \<Rightarrow> (Inl TypeError, w)))"


text \<open>
  Repeated rotations, for the properties that speak of a sequence of calls: each call
  has its own draw of the generator and its own order, and runs in the world the call
  before it left. The results come out in the order of the calls.
\<close>

fun rotations :: "(nat \<times> string) list \<Rightarrow> world \<Rightarrow> (exn + path option) list \<times> world" where
  "rotations [] w = ([], w)"
| "rotations ((r, order) # cs) w =
     (let (res, w') = get_next_wallpaper r order w;
          (ress, w'') = rotations cs w'
      in (res # ress, w''))"

section \<open>Wallpaper applier\<close>

text \<open>
  The applier talks to four collaborators, which the model takes as functions of what
  they are given:
  \<^item> \<open>resolve\<close>: \<^verbatim>\<open>str(image_path.resolve())\<close>, the absolute path or the exception raised;
  \<^item> \<open>run_powershell\<close>: \<^verbatim>\<open>subprocess.run([...], timeout=30, ...)\<close> with the script that
    calls \<^verbatim>\<open>Set-AllDesktopWallpapers\<close>: the exception raised (\<^verbatim>\<open>TimeoutExpired\<close> after 30
    seconds, \<^verbatim>\<open>OSError\<close> when there is no \<^verbatim>\<open>powershell\<close>, ...) or the return code, the
    standard output and the standard error of the finished process;
  \<^item> \<open>SystemParametersInfoW\<close>: \<^verbatim>\<open>ctypes.windll.user32.SystemParametersInfoW(20, 0, path, 3)\<close>,
    the exception raised or the integer returned;
  \<^item> \<open>console\<close>: \<^verbatim>\<open>print\<close>, which writes the message (\<open>None\<close>) or raises (for instance
    \<^verbatim>\<open>UnicodeEncodeError\<close>, when the text of an exception holds a character that the
    encoding of the console does not have).
  The calls made to the second and the third are recorded, in order.
\<close>

text \<open>The messages of the applier, one constructor for each \<^verbatim>\<open>print\<close> of its two functions.\<close>

datatype message =
    FallingBack
  | ErrorSettingWallpaper exn
  | ModuleNotInstalled
  | CommandNotFound
  | PowerShellError string
  | PowerShellTimedOut
  | PowerShellExecutionError exn

record desktop =
  resolve :: "path \<Rightarrow> exn + string"
  run_powershell :: "string \<Rightarrow> exn + (int \<times> string \<times> string)"
  SystemParametersInfoW :: "string \<Rightarrow> exn + int"
  console :: "message \<Rightarrow> exn option"

datatype call = PowerShell string | SystemParametersInfo string

text \<open>
  The two \<^verbatim>\<open>except\<close> clauses of \<^verbatim>\<open>_set_wallpaper_all_desktops_powershell\<close> (lines 167 to
  172): each prints its message and returns false; an exception of the \<^verbatim>\<open>print\<close> of a
  handler leaves the function.
\<close>

definition powershell_except :: "desktop \<Rightarrow> exn \<Rightarrow> exn + bool" where
  "powershell_except env e =
     (if e = TimeoutExpired then
        (case console env PowerShellTimedOut of None \<Rightarrow> Inr False | Some e' \<Rightarrow> Inl e')
      else
        (case console env (PowerShellExecutionError e) of
           None \<Rightarrow> Inr False
         | Some e' \<Rightarrow> Inl e'))"

text \<open>
  A \<^verbatim>\<open>print\<close> followed by \<^verbatim>\<open>return False\<close> inside the \<^verbatim>\<open>try\<close> of that function (lines 154
  to 165): an exception of the \<^verbatim>\<open>print\<close> goes to the \<^verbatim>\<open>except\<close> clauses.
\<close>

definition powershell_report :: "desktop \<Rightarrow> message \<Rightarrow> exn + bool" where
  "powershell_report env m =
     (case console env m of None \<Rightarrow> Inr False | Some e \<Rightarrow> powershell_except env e)"

text \<open>
  \<^verbatim>\<open>_set_wallpaper_all_desktops_powershell\<close>: true only when the process returns 0 and
  prints \<^verbatim>\<open>SUCCESS\<close>; the other three branches and the exceptions of
  \<^verbatim>\<open>subprocess.run\<close> print a message and return false.
\<close>

definition set_wallpaper_all_desktops_powershell ::
  "desktop \<Rightarrow> string \<Rightarrow> (exn + bool) \<times> call list" where
  "set_wallpaper_all_desktops_powershell env wallpaper_path =
     (case run_powershell env wallpaper_path of
        Inl e \<Rightarrow> powershell_except env e
      | Inr (returncode, stdout, stderr) \<Rightarrow>
          (if returncode = 0 \<and> sublist ''SUCCESS'' stdout then Inr True
           else if sublist ''MODULE_NOT_FOUND'' stdout then
             powershell_report env ModuleNotInstalled
           else if sublist ''COMMAND_NOT_FOUND'' stdout then
             powershell_report env CommandNotFound
           else powershell_report env (PowerShellError stderr)),
      [PowerShell wallpaper_path])"

text \<open>
  The \<^verbatim>\<open>except Exception as e\<close> of \<^verbatim>\<open>set_wallpaper\<close> (lines 115 to 117): it prints the
  exception and returns false; an exception of this \<^verbatim>\<open>print\<close> leaves \<^verbatim>\<open>set_wallpaper\<close>.
\<close>

definition set_wallpaper_except :: "desktop \<Rightarrow> exn \<Rightarrow> exn + bool" where
  "set_wallpaper_except env e =
     (case console env (ErrorSettingWallpaper e) of None \<Rightarrow> Inr False | Some e' \<Rightarrow> Inl e')"

text \<open>
  \<^verbatim>\<open>set_wallpaper\<close>: everything is inside one \<^verbatim>\<open>try\<close>, the resolution of the path and
  the \<^verbatim>\<open>print\<close> between the two tiers included. The result is \<open>Inr\<close> of the boolean
  returned or \<open>Inl\<close> of the exception that leaves the function.
\<close>

definition set_wallpaper :: "desktop \<Rightarrow> path \<Rightarrow> (exn + bool) \<times> call list" where
  "set_wallpaper env image_path =
     (case resolve env image_path of
        Inl e \<Rightarrow> (set_wallpaper_except env e, [])
      | Inr wallpaper_path \<Rightarrow>
          (case set_wallpaper_all_desktops_powershell env wallpaper_path of
             (Inl e, calls) \<Rightarrow> (set_wallpaper_except env e, calls)
           | (Inr True, calls) \<Rightarrow> (Inr True, calls)
           | (Inr False, calls) \<Rightarrow>
               (case console env FallingBack of
                  Some e \<Rightarrow> (set_wallpaper_except env e, calls)
                | None \<Rightarrow>
                    (case SystemParametersInfoW env wallpaper_path of
                       Inl e \<Rightarrow>
                         (set_wallpaper_except env e,
                          calls @ [SystemParametersInfo wallpaper_path])
                     | Inr result \<Rightarrow>
                         (Inr (result \<noteq> 0),
                          calls @ [SystemParametersInfo wallpaper_path])))))"


section \<open>Properties\<close>

subsection \<open>Auxiliary facts\<close>

lemma getitem_in_range:
  "0 \<le> i \<Longrightarrow> i < int (length xs) \<Longrightarrow> getitem xs i = Inr (xs ! nat i)"
  by (simp add: getitem_def)

lemma random_choice_member:
  "xs \<noteq> [] \<Longrightarrow> \<exists>x\<in>set xs. random_choice r xs = Inr x"
  by (simp add: random_choice_def)

lemma int_ne_zero_or_one: "int_ne 0 cur \<or> int_ne 1 cur"
  by (cases cur) auto

lemma available_indices_iff:
  "i \<in> set (available_indices n cur) \<longleftrightarrow> 0 \<le> i \<and> i < int n \<and> int_ne i cur"
proof -
  have "i \<in> int ` {0..<n} \<longleftrightarrow> 0 \<le> i \<and> i < int n"
  proof
    assume "i \<in> int ` {0..<n}"
    then show "0 \<le> i \<and> i < int n" by auto
  next
    assume "0 \<le> i \<and> i < int n"
    then have "nat i \<in> {0..<n}" and "i = int (nat i)" by auto
    then show "i \<in> int ` {0..<n}" by (rule_tac image_eqI)
  qed
  then show ?thesis by (auto simp: available_indices_def)
qed

lemma available_indices_nonempty:
  assumes "1 < n"
  shows "available_indices n cur \<noteq> []"
proof -
  from int_ne_zero_or_one [of cur] assms
  have "0 \<in> set (available_indices n cur) \<or> 1 \<in> set (available_indices n cur)"
    by (auto simp: available_indices_iff)
  then show ?thesis by auto
qed

lemma dict_get_update:
  "dict_get (AList.update k v d) k' dflt = (if k' = k then v else dict_get d k' dflt)"
  by (simp add: dict_get_def update_conv')

lemma next_index_random_many:
  assumes "1 < n"
  shows "\<exists>i. next_index r ''random'' n cur = Inr i \<and> 0 \<le> i \<and> i < int n \<and> int_ne i cur"
proof -
  from available_indices_nonempty [OF assms]
  obtain i where "i \<in> set (available_indices n cur)"
    and "random_choice r (available_indices n cur) = Inr i"
    using random_choice_member by blast
  with assms show ?thesis
    by (auto simp: next_index_def available_indices_iff)
qed

lemma next_index_random_one: "n \<le> 1 \<Longrightarrow> next_index r ''random'' n cur = Inr 0"
  by (simp add: next_index_def)

lemma next_index_sequential:
  "order \<noteq> ''random'' \<Longrightarrow> add_one cur = Inr k \<Longrightarrow>
     next_index r order n cur = Inr (k mod int n)"
  by (simp add: next_index_def)

lemma current_index_drift:
  "int_ne (int n) (dict_get d ''image_count'' (PInt 0)) \<Longrightarrow> current_index n d = PInt (- 1)"
  by (simp add: current_index_def)

lemma current_index_same_count:
  "\<not> int_ne (int n) (dict_get d ''image_count'' (PInt 0)) \<Longrightarrow>
     current_index n d = dict_get d ''current_index'' (PInt (- 1))"
  by (simp add: current_index_def)

text \<open>
  Once the index is known to be in range, a rotation returns the image at that index
  and saves the updated state.
\<close>

lemma get_next_wallpaper_chosen:
  assumes "image_files w \<noteq> []" and "load_state w = Inr (PDict d)"
    and "next_index r order (length (image_files w))
           (current_index (length (image_files w)) d) = Inr i"
    and "0 \<le> i" and "i < int (length (image_files w))"
  shows "get_next_wallpaper r order w =
           (Inr (Some (image_files w ! nat i)),
            save_state (update_state i (image_files w ! nat i) (length (image_files w)) order d) w)"
  using assms by (simp add: get_next_wallpaper_def Let_def getitem_in_range)

lemma get_next_wallpaper_sequential:
  assumes "image_files w \<noteq> []" and "load_state w = Inr (PDict d)"
    and "order \<noteq> ''random''"
    and "add_one (current_index (length (image_files w)) d) = Inr k"
  shows "get_next_wallpaper r order w =
           (Inr (Some (image_files w ! nat (k mod int (length (image_files w))))),
            save_state (update_state (k mod int (length (image_files w)))
               (image_files w ! nat (k mod int (length (image_files w))))
               (length (image_files w)) order d) w)"
proof -
  let ?n = "length (image_files w)"
  from assms(1) have "0 < ?n" by simp
  then have "0 \<le> k mod int ?n" and "k mod int ?n < int ?n" by simp_all
  moreover have "next_index r order ?n (current_index ?n d) = Inr (k mod int ?n)"
    using assms(3,4) by (rule next_index_sequential)
  ultimately show ?thesis
    using assms(1,2) by (simp add: get_next_wallpaper_chosen)
qed

lemma available_indices_fresh: "available_indices n (PInt (- 1)) = map int [0..<n]"
  by (simp add: available_indices_def)

lemma map_fst_update:
  "map fst (AList.update k v d) = (if k \<in> fst ` set d then map fst d else map fst d @ [k])"
  by (simp add: update_keys)










text \<open>Sequential rotations, one after the other, when every save succeeds.\<close>

lemma current_index_update_state:
  "current_index n (update_state i p n order d) = PInt i"
  by (simp add: current_index_def update_state_def dict_get_update)

lemma sequential_step:
  assumes "image_files w \<noteq> []" and "load_state w = Inr (PDict d)"
    and "current_index (length (image_files w)) d = PInt p"
    and "writable w"
  shows "get_next_wallpaper r ''sequential'' w =
           (Inr (Some (image_files w ! nat ((p + 1) mod int (length (image_files w))))),
            w\<lparr>state_file := Holds (PDict
              (update_state ((p + 1) mod int (length (image_files w)))
                 (image_files w ! nat ((p + 1) mod int (length (image_files w))))
                 (length (image_files w)) ''sequential'' d))\<rparr>)"
proof -
  have "add_one (current_index (length (image_files w)) d) = Inr (p + 1)"
    by (simp add: assms(3))
  from get_next_wallpaper_sequential [OF assms(1,2) _ this, of "''sequential''" r] assms(4)
  show ?thesis
    by (simp add: save_state_def)
qed

lemma upt_0_Suc_map: "[0..<Suc m] = 0 # map Suc [0..<m]"
  by (simp add: upt_conv_Cons map_Suc_upt del: upt_Suc)

lemma rotations_sequential_from:
  assumes "image_files w \<noteq> []" and "load_state w = Inr (PDict d)"
    and "current_index (length (image_files w)) d = PInt p"
    and "writable w"
  shows "fst (rotations (map (\<lambda>r. (r, ''sequential'')) rs) w) =
           map (\<lambda>k. Inr (Some (image_files w !
                  nat ((p + 1 + int k) mod int (length (image_files w))))))
             [0..<length rs]"
  using assms
proof (induction rs arbitrary: w d p)
  case Nil
  then show ?case by simp
next
  case (Cons r rs)
  let ?n = "length (image_files w)"
  let ?q = "(p + 1) mod int ?n"
  let ?d = "update_state ?q (image_files w ! nat ?q) ?n ''sequential'' d"
  let ?w = "w\<lparr>state_file := Holds (PDict ?d)\<rparr>"
  have step: "get_next_wallpaper r ''sequential'' w =
      (Inr (Some (image_files w ! nat ?q)), ?w)"
    using Cons.prems by (rule sequential_step)
  have cur: "current_index ?n ?d = PInt ?q"
    by (rule current_index_update_state)
  have "fst (rotations (map (\<lambda>r. (r, ''sequential'')) rs) ?w) =
      map (\<lambda>k. Inr (Some (image_files ?w !
             nat ((?q + 1 + int k) mod int (length (image_files ?w)))))) [0..<length rs]"
    using Cons.prems(1,4) cur
    by (intro Cons.IH [of ?w ?d ?q]) (simp_all add: load_state_def)
  moreover have "(?q + 1 + int k) mod int ?n = (p + 1 + int (Suc k)) mod int ?n" for k
  proof -
    have "(?q + 1 + int k) mod int ?n = (?q + (1 + int k)) mod int ?n"
      by (simp add: add.assoc)
    also have "\<dots> = (p + 1 + (1 + int k)) mod int ?n"
      by (rule mod_add_left_eq)
    also have "\<dots> = (p + 1 + int (Suc k)) mod int ?n"
      by (simp add: algebra_simps)
    finally show ?thesis .
  qed
  ultimately have rest: "fst (rotations (map (\<lambda>r. (r, ''sequential'')) rs) ?w) =
      map (\<lambda>k. Inr (Some (image_files w ! nat ((p + 1 + int (Suc k)) mod int ?n))))
        [0..<length rs]"
    by simp
  have "[0..<length (r # rs)] = 0 # map Suc [0..<length rs]"
    using upt_0_Suc_map [of "length rs"] by simp
  then show ?case
    by (simp add: step rest split_beta Let_def comp_def del: upt_Suc)
qed

text \<open>The applier when the console takes every message.\<close>

lemma powershell_except_quiet:
  "\<forall>m. console env m = None \<Longrightarrow> powershell_except env e = Inr False"
  by (simp add: powershell_except_def)

lemma powershell_report_quiet:
  "\<forall>m. console env m = None \<Longrightarrow> powershell_report env m = Inr False"
  by (simp add: powershell_report_def)

lemma powershell_tier_quiet:
  assumes "\<forall>m. console env m = None"
  shows "set_wallpaper_all_desktops_powershell env wp =
     (Inr (\<exists>out err. run_powershell env wp = Inr (0, out, err) \<and> sublist ''SUCCESS'' out),
      [PowerShell wp])"
  using assms
  by (auto simp: set_wallpaper_all_desktops_powershell_def powershell_except_quiet
      powershell_report_quiet split: sum.splits prod.splits)

lemma set_wallpaper_except_quiet:
  "\<forall>m. console env m = None \<Longrightarrow> set_wallpaper_except env e = Inr False"
  by (simp add: set_wallpaper_except_def)

text \<open>When the state file cannot be written, a save changes nothing.\<close>

lemma save_state_unwritable: "\<not> writable w \<Longrightarrow> save_state d w = w"
  by (simp add: save_state_def)

lemma rotations_sequential_unwritable:
  assumes "image_files w \<noteq> []" and "state_file w = Missing" and "\<not> writable w"
  shows "fst (rotations (map (\<lambda>r. (r, ''sequential'')) rs) w) =
           replicate (length rs) (Inr (Some (image_files w ! 0)))"
proof (induction rs)
  case Nil
  then show ?case by simp
next
  case (Cons r rs)
  let ?n = "length (image_files w)"
  have load: "load_state w = Inr (PDict default_state)"
    using assms(2) by (simp add: load_state_def)
  have "int_ne (int ?n) (dict_get default_state ''image_count'' (PInt 0))"
    using assms(1) by (simp add: default_state_def dict_get_def)
  then have "add_one (current_index ?n default_state) = Inr 0"
    by (simp add: current_index_drift)
  from get_next_wallpaper_sequential [OF assms(1) load _ this, of "''sequential''" r] assms(3)
  have "get_next_wallpaper r ''sequential'' w = (Inr (Some (image_files w ! 0)), w)"
    by (simp add: save_state_unwritable)
  with Cons.IH show ?case
    by (simp add: split_beta)
qed



subsection \<open>An empty listing\<close>

text \<open>
  C5. Whatever the state file holds, when the listing of images is empty
  \<^verbatim>\<open>get_next_wallpaper\<close> returns \<^verbatim>\<open>None\<close> and the world, the state file included, is exactly
  as it was: the function returns before it loads the state.
\<close>

theorem empty_listing_returns_nothing:
  "image_files w = [] \<Longrightarrow> get_next_wallpaper r order w = (Inr None, w)"
  by (simp add: get_next_wallpaper_def)

theorem empty_listing_returns_nothing_witness:
  "image_files \<lparr>image_files = [],
      state_file = Holds (PDict [(''current_index'', PInt 2), (''image_count'', PInt 3)]),
      writable = True\<rparr> = [] \<and>
   get_next_wallpaper 7 ''random''
     \<lparr>image_files = [],
      state_file = Holds (PDict [(''current_index'', PInt 2), (''image_count'', PInt 3)]),
      writable = True\<rparr> =
   (Inr None,
    \<lparr>image_files = [],
      state_file = Holds (PDict [(''current_index'', PInt 2), (''image_count'', PInt 3)]),
      writable = True\<rparr>)"
  using empty_listing_returns_nothing
    [of "\<lparr>image_files = [],
      state_file = Holds (PDict [(''current_index'', PInt 2), (''image_count'', PInt 3)]),
      writable = True\<rparr>" 7 "''random''"]
  by simp

subsection \<open>Drift\<close>

text \<open>
  C2. For every persisted state (a dict \<open>d\<close> held by the state file) and every non-empty
  listing whose length differs from the persisted \<^verbatim>\<open>image_count\<close> (absent: 0), the
  selection starts from \<open>-1\<close> whatever \<^verbatim>\<open>current_index\<close> is persisted, and a sequential
  rotation returns the image at index 0 of the listing and saves index 0.
\<close>

theorem drift_restarts_sequence:
  assumes "image_files w \<noteq> []"
    and "state_file w = Holds (PDict d)"
    and "int_ne (int (length (image_files w))) (dict_get d ''image_count'' (PInt 0))"
  shows "current_index (length (image_files w)) d = PInt (- 1) \<and>
         get_next_wallpaper r ''sequential'' w =
           (Inr (Some (image_files w ! 0)),
            save_state
              (update_state 0 (image_files w ! 0) (length (image_files w)) ''sequential'' d) w)"
proof -
  have cur: "current_index (length (image_files w)) d = PInt (- 1)"
    using assms(3) by (rule current_index_drift)
  have "load_state w = Inr (PDict d)"
    using assms(2) by (simp add: load_state_def)
  moreover have "add_one (current_index (length (image_files w)) d) = Inr 0"
    by (simp add: cur)
  ultimately show ?thesis
    using assms(1) cur by (simp add: get_next_wallpaper_sequential)
qed

theorem drift_restarts_sequence_witness:
  "image_files \<lparr>image_files = [''a.png'', ''b.jpg'', ''c.gif'', ''d.png'', ''e.png''],
      state_file = Holds (PDict [(''current_index'', PInt 2), (''image_count'', PInt 3)]),
      writable = True\<rparr> \<noteq> [] \<and>
   int_ne (int (length [''a.png'', ''b.jpg'', ''c.gif'', ''d.png'', ''e.png'']))
     (dict_get [(''current_index'', PInt 2), (''image_count'', PInt 3)] ''image_count'' (PInt 0)) \<and>
   fst (get_next_wallpaper 0 ''sequential''
     \<lparr>image_files = [''a.png'', ''b.jpg'', ''c.gif'', ''d.png'', ''e.png''],
      state_file = Holds (PDict [(''current_index'', PInt 2), (''image_count'', PInt 3)]),
      writable = True\<rparr>) = Inr (Some ''a.png'')"
proof -
  let ?d = "[(''current_index'', PInt 2), (''image_count'', PInt 3)]"
  let ?w = "\<lparr>image_files = [''a.png'', ''b.jpg'', ''c.gif'', ''d.png'', ''e.png''],
      state_file = Holds (PDict ?d), writable = True\<rparr>"
  have h1: "image_files ?w \<noteq> []" by simp
  have h2: "state_file ?w = Holds (PDict ?d)" by simp
  have h3: "int_ne (int (length (image_files ?w))) (dict_get ?d ''image_count'' (PInt 0))"
    by (simp add: dict_get_def)
  from drift_restarts_sequence [OF h1 h2 h3, of 0] h1 h3 show ?thesis by simp
qed

subsection \<open>The computed index\<close>

text \<open>
  C10. For every non-empty listing and every state whose \<^verbatim>\<open>current_index\<close> is an int
  (any int, also far out of range, or absent), whatever the persisted count and
  whatever the order: the index that \<^verbatim>\<open>get_next_wallpaper\<close> computes is at least 0 and
  below the length of the listing, reading the listing at it raises no \<^verbatim>\<open>IndexError\<close>,
  and the call returns the image at it; with more than one image, the list of
  candidates handed to \<^verbatim>\<open>random.choice\<close> is not empty.
\<close>

theorem next_index_in_bounds:
  assumes "image_files w \<noteq> []"
    and "load_state w = Inr (PDict d)"
    and "dict_get d ''current_index'' (PInt (- 1)) = PInt k"
  shows "(\<exists>i. next_index r order (length (image_files w))
                 (current_index (length (image_files w)) d) = Inr i \<and>
              0 \<le> i \<and> i < int (length (image_files w)) \<and>
              getitem (image_files w) i = Inr (image_files w ! nat i) \<and>
              fst (get_next_wallpaper r order w) = Inr (Some (image_files w ! nat i))) \<and>
         (1 < length (image_files w) \<longrightarrow>
            available_indices (length (image_files w))
              (current_index (length (image_files w)) d) \<noteq> [])"
proof -
  let ?n = "length (image_files w)"
  let ?cur = "current_index ?n d"
  note load = assms(2)
  have pos: "0 < ?n" using assms(1) by simp
  obtain c where cur: "?cur = PInt c"
    using assms(3) by (cases "int_ne (int ?n) (dict_get d ''image_count'' (PInt 0))")
      (simp_all add: current_index_def)
  have "\<exists>i. next_index r order ?n ?cur = Inr i \<and> 0 \<le> i \<and> i < int ?n"
  proof (cases "order = ''random''")
    case True
    show ?thesis
    proof (cases "1 < ?n")
      case True
      from next_index_random_many [OF this, of r ?cur] \<open>order = ''random''\<close>
      show ?thesis by auto
    next
      case False
      with pos \<open>order = ''random''\<close> show ?thesis
        by (simp add: next_index_random_one)
    qed
  next
    case False
    have "add_one ?cur = Inr (c + 1)" by (simp add: cur)
    from next_index_sequential [OF False this, of r ?n] pos
    show ?thesis by simp
  qed
  then obtain i where i: "next_index r order ?n ?cur = Inr i" "0 \<le> i" "i < int ?n"
    by blast
  have "getitem (image_files w) i = Inr (image_files w ! nat i)"
    using i(2,3) by (rule getitem_in_range)
  moreover have "fst (get_next_wallpaper r order w) = Inr (Some (image_files w ! nat i))"
    using get_next_wallpaper_chosen [OF assms(1) load i] by simp
  ultimately have "\<exists>i. next_index r order ?n ?cur = Inr i \<and> 0 \<le> i \<and> i < int ?n \<and>
      getitem (image_files w) i = Inr (image_files w ! nat i) \<and>
      fst (get_next_wallpaper r order w) = Inr (Some (image_files w ! nat i))"
    using i by blast
  then show ?thesis
    using available_indices_nonempty by blast
qed

theorem next_index_in_bounds_witness:
  "image_files \<lparr>image_files = [''a.png'', ''b.jpg'', ''c.gif''],
      state_file = Holds (PDict [(''current_index'', PInt 41), (''image_count'', PInt 3)]),
      writable = False\<rparr> \<noteq> [] \<and>
   dict_get [(''current_index'', PInt 41), (''image_count'', PInt 3)]
     ''current_index'' (PInt (- 1)) = PInt 41 \<and>
   (\<exists>i. 0 \<le> i \<and> i < 3 \<and>
      fst (get_next_wallpaper 5 ''random''
        \<lparr>image_files = [''a.png'', ''b.jpg'', ''c.gif''],
         state_file = Holds (PDict [(''current_index'', PInt 41), (''image_count'', PInt 3)]),
         writable = False\<rparr>) = Inr (Some ([''a.png'', ''b.jpg'', ''c.gif''] ! nat i))) \<and>
   available_indices 3
     (current_index 3 [(''current_index'', PInt 41), (''image_count'', PInt 3)]) \<noteq> []"
proof -
  let ?d = "[(''current_index'', PInt 41), (''image_count'', PInt 3)]"
  let ?w = "\<lparr>image_files = [''a.png'', ''b.jpg'', ''c.gif''],
      state_file = Holds (PDict ?d), writable = False\<rparr>"
  have h1: "image_files ?w \<noteq> []" by simp
  have h2: "load_state ?w = Inr (PDict ?d)" by (simp add: load_state_def)
  have h3: "dict_get ?d ''current_index'' (PInt (- 1)) = PInt 41"
    by (simp add: dict_get_def)
  from next_index_in_bounds [OF h1 h2 h3, of 5 "''random''"] h1 h3
  show ?thesis by (auto simp: numeral_3_eq_3)
qed

subsection \<open>Random order\<close>

text \<open>
  C3, as the code has it. For every non-empty listing and every state that
  \<^verbatim>\<open>load_state\<close> returns as a dict:
  \<^item> with more than one image and a persisted \<^verbatim>\<open>image_count\<close> equal to the length of the
    listing, a random rotation returns an index in range that differs (Python's
    \<^verbatim>\<open>!=\<close>) from the persisted \<^verbatim>\<open>current_index\<close>, and saves it;
  \<^item> with more than one image and a persisted count that differs from the length, the
    persisted index is set aside first, and the candidates are all the indices of the
    listing, the persisted one included;
  \<^item> with exactly one image, index 0 is chosen.
\<close>

theorem random_avoids_current_index:
  assumes "image_files w \<noteq> []"
    and "load_state w = Inr (PDict d)"
  shows "(1 < length (image_files w) \<and>
          \<not> int_ne (int (length (image_files w))) (dict_get d ''image_count'' (PInt 0)) \<longrightarrow>
            (\<exists>i. 0 \<le> i \<and> i < int (length (image_files w)) \<and>
               int_ne i (dict_get d ''current_index'' (PInt (- 1))) \<and>
               get_next_wallpaper r ''random'' w =
                 (Inr (Some (image_files w ! nat i)),
                  save_state (update_state i (image_files w ! nat i)
                    (length (image_files w)) ''random'' d) w))) \<and>
         (1 < length (image_files w) \<and>
          int_ne (int (length (image_files w))) (dict_get d ''image_count'' (PInt 0)) \<longrightarrow>
            available_indices (length (image_files w))
              (current_index (length (image_files w)) d) =
            map int [0..<length (image_files w)]) \<and>
         (length (image_files w) = 1 \<longrightarrow>
            get_next_wallpaper r ''random'' w =
              (Inr (Some (image_files w ! 0)),
               save_state (update_state 0 (image_files w ! 0) 1 ''random'' d) w))"
proof (intro conjI impI)
  let ?n = "length (image_files w)"
  assume a: "1 < ?n \<and> \<not> int_ne (int ?n) (dict_get d ''image_count'' (PInt 0))"
  then have cur: "current_index ?n d = dict_get d ''current_index'' (PInt (- 1))"
    by (simp add: current_index_same_count)
  from a next_index_random_many [of ?n r "current_index ?n d"]
  obtain i where i: "next_index r ''random'' ?n (current_index ?n d) = Inr i"
    "0 \<le> i" "i < int ?n" "int_ne i (current_index ?n d)"
    by blast
  from get_next_wallpaper_chosen [OF assms i(1,2,3)] i(2,3,4) cur
  show "\<exists>i. 0 \<le> i \<and> i < int ?n \<and> int_ne i (dict_get d ''current_index'' (PInt (- 1))) \<and>
          get_next_wallpaper r ''random'' w =
            (Inr (Some (image_files w ! nat i)),
             save_state (update_state i (image_files w ! nat i) ?n ''random'' d) w)"
    by auto
next
  let ?n = "length (image_files w)"
  assume "1 < ?n \<and> int_ne (int ?n) (dict_get d ''image_count'' (PInt 0))"
  then show "available_indices ?n (current_index ?n d) = map int [0..<?n]"
    by (simp add: current_index_drift available_indices_fresh)
next
  assume one: "length (image_files w) = 1"
  have "next_index r ''random'' 1 (current_index 1 d) = Inr 0"
    by (simp add: next_index_random_one)
  with get_next_wallpaper_chosen [OF assms, of r "''random''" 0] one
  show "get_next_wallpaper r ''random'' w =
          (Inr (Some (image_files w ! 0)),
           save_state (update_state 0 (image_files w ! 0) 1 ''random'' d) w)"
    by simp
qed

theorem random_avoids_current_index_witness:
  "image_files \<lparr>image_files = [''a.png'', ''b.jpg'', ''c.gif''],
      state_file = Holds (PDict [(''current_index'', PInt 2), (''image_count'', PInt 3)]),
      writable = True\<rparr> \<noteq> [] \<and>
   1 < length [''a.png'', ''b.jpg'', ''c.gif''] \<and>
   \<not> int_ne (int (length [''a.png'', ''b.jpg'', ''c.gif'']))
     (dict_get [(''current_index'', PInt 2), (''image_count'', PInt 3)] ''image_count'' (PInt 0)) \<and>
   (\<exists>i. 0 \<le> i \<and> i < 3 \<and> i \<noteq> 2 \<and>
      fst (get_next_wallpaper 2 ''random''
        \<lparr>image_files = [''a.png'', ''b.jpg'', ''c.gif''],
         state_file = Holds (PDict [(''current_index'', PInt 2), (''image_count'', PInt 3)]),
         writable = True\<rparr>) = Inr (Some ([''a.png'', ''b.jpg'', ''c.gif''] ! nat i)))"
proof -
  let ?d = "[(''current_index'', PInt 2), (''image_count'', PInt 3)]"
  let ?w = "\<lparr>image_files = [''a.png'', ''b.jpg'', ''c.gif''],
      state_file = Holds (PDict ?d), writable = True\<rparr>"
  have h1: "image_files ?w \<noteq> []" by simp
  have h2: "load_state ?w = Inr (PDict ?d)" by (simp add: load_state_def)
  have h3: "1 < length (image_files ?w) \<and>
      \<not> int_ne (int (length (image_files ?w))) (dict_get ?d ''image_count'' (PInt 0))"
    by (simp add: dict_get_def)
  have h4: "dict_get ?d ''current_index'' (PInt (- 1)) = PInt 2"
    by (simp add: dict_get_def)
  from random_avoids_current_index [OF h1 h2, of 2] h3 h4
  have "\<exists>i. 0 \<le> i \<and> i < 3 \<and> i \<noteq> 2 \<and>
      fst (get_next_wallpaper 2 ''random'' ?w) = Inr (Some (image_files ?w ! nat i))"
    by auto
  with h1 h3 show ?thesis by simp
qed

text \<open>
  The claim as written speaks of every persisted \<^verbatim>\<open>current_index\<close>. With index 2 and
  count 3 persisted and four images in the folder, the draw 2 returns the image at
  index 2 again, and index 2 is saved again.
\<close>

theorem random_repeat_after_drift_counterexample:
  "1 < length [''a.png'', ''b.jpg'', ''c.gif'', ''d.png''] \<and>
   dict_get [(''current_index'', PInt 2), (''image_count'', PInt 3)]
     ''current_index'' (PInt (- 1)) = PInt 2 \<and>
   get_next_wallpaper 2 ''random''
     \<lparr>image_files = [''a.png'', ''b.jpg'', ''c.gif'', ''d.png''],
      state_file = Holds (PDict [(''current_index'', PInt 2), (''image_count'', PInt 3)]),
      writable = True\<rparr> =
   (Inr (Some ([''a.png'', ''b.jpg'', ''c.gif'', ''d.png''] ! 2)),
    \<lparr>image_files = [''a.png'', ''b.jpg'', ''c.gif'', ''d.png''],
      state_file = Holds (PDict [(''current_index'', PInt 2), (''image_count'', PInt 4),
         (''last_wallpaper'', PStr ''c.gif''), (''order'', PStr ''random'')]),
      writable = True\<rparr>)"
  by (simp add: get_next_wallpaper_def load_state_def current_index_def dict_get_def
      next_index_def available_indices_def random_choice_def getitem_def
      update_state_def save_state_def upt_conv_Cons)

subsection \<open>Setting the order\<close>

text \<open>
  C7. An order other than \<^verbatim>\<open>"sequential"\<close> and \<^verbatim>\<open>"random"\<close> is rejected with
  \<^verbatim>\<open>ValueError\<close> before the state is loaded, and the world, the state file included, is
  as it was. For one of the two orders and a state that \<^verbatim>\<open>load_state\<close> returns as a dict,
  \<^verbatim>\<open>set_order\<close> saves that dict with the key \<^verbatim>\<open>order\<close> set to the new order: every other
  key keeps its value, the keys keep their places (\<^verbatim>\<open>order\<close> is added at the end when it
  was absent), and when the state file can be written it holds the result.
\<close>

theorem set_order_validates:
  "(order \<notin> {''sequential'', ''random''} \<longrightarrow> set_order order w = (Inl ValueError, w)) \<and>
   (order \<in> {''sequential'', ''random''} \<and> load_state w = Inr (PDict d) \<longrightarrow>
      set_order order w = (Inr (), save_state (AList.update ''order'' (PStr order) d) w) \<and>
      (writable w \<longrightarrow>
         state_file (snd (set_order order w)) =
           Holds (PDict (AList.update ''order'' (PStr order) d))) \<and>
      map_of (AList.update ''order'' (PStr order) d) ''order'' = Some (PStr order) \<and>
      (\<forall>k. k \<noteq> ''order'' \<longrightarrow>
         map_of (AList.update ''order'' (PStr order) d) k = map_of d k) \<and>
      map fst (AList.update ''order'' (PStr order) d) =
        (if ''order'' \<in> fst ` set d then map fst d else map fst d @ [''order'']))"
proof (intro conjI impI)
  assume "order \<notin> {''sequential'', ''random''}"
  then show "set_order order w = (Inl ValueError, w)"
    by (simp add: set_order_def)
next
  assume a: "order \<in> {''sequential'', ''random''} \<and> load_state w = Inr (PDict d)"
  then show s: "set_order order w =
      (Inr (), save_state (AList.update ''order'' (PStr order) d) w)"
    by (auto simp: set_order_def)
  assume "writable w"
  then show "state_file (snd (set_order order w)) =
      Holds (PDict (AList.update ''order'' (PStr order) d))"
    by (simp add: s save_state_def)
next
  show "map_of (AList.update ''order'' (PStr order) d) ''order'' = Some (PStr order)"
    by (simp add: update_conv')
next
  show "\<forall>k. k \<noteq> ''order'' \<longrightarrow>
      map_of (AList.update ''order'' (PStr order) d) k = map_of d k"
    by (simp add: update_conv')
next
  show "map fst (AList.update ''order'' (PStr order) d) =
      (if ''order'' \<in> fst ` set d then map fst d else map fst d @ [''order''])"
    by (rule map_fst_update)
qed

theorem set_order_validates_witness:
  "''shuffle'' \<notin> {''sequential'', ''random''} \<and>
   set_order ''shuffle''
     \<lparr>image_files = [''a.png''],
      state_file = Holds (PDict [(''current_index'', PInt 0), (''order'', PStr ''sequential'')]),
      writable = True\<rparr> =
   (Inl ValueError,
    \<lparr>image_files = [''a.png''],
      state_file = Holds (PDict [(''current_index'', PInt 0), (''order'', PStr ''sequential'')]),
      writable = True\<rparr>) \<and>
   ''random'' \<in> {''sequential'', ''random''} \<and>
   writable \<lparr>image_files = [''a.png''],
      state_file = Holds (PDict [(''current_index'', PInt 0), (''order'', PStr ''sequential'')]),
      writable = True\<rparr> \<and>
   state_file (snd (set_order ''random''
     \<lparr>image_files = [''a.png''],
      state_file = Holds (PDict [(''current_index'', PInt 0), (''order'', PStr ''sequential'')]),
      writable = True\<rparr>)) =
   Holds (PDict [(''current_index'', PInt 0), (''order'', PStr ''random'')])"
proof -
  let ?d = "[(''current_index'', PInt 0), (''order'', PStr ''sequential'')]"
  let ?w = "\<lparr>image_files = [''a.png''], state_file = Holds (PDict ?d), writable = True\<rparr>"
  have h1: "''shuffle'' \<notin> {''sequential'', ''random''}" by simp
  have h2: "''random'' \<in> {''sequential'', ''random''} \<and> load_state ?w = Inr (PDict ?d)"
    by (simp add: load_state_def)
  have h3: "writable ?w" by simp
  from set_order_validates [of "''shuffle''" ?w ?d] h1
  have c1: "set_order ''shuffle'' ?w = (Inl ValueError, ?w)" by blast
  from set_order_validates [of "''random''" ?w ?d] h2 h3
  have c2: "state_file (snd (set_order ''random'' ?w)) =
      Holds (PDict (AList.update ''order'' (PStr ''random'') ?d))" by blast
  from c1 c2 h1 h3 show ?thesis by simp
qed

subsection \<open>Loading the state\<close>

text \<open>
  \<^verbatim>\<open>load_state\<close> answers a missing file, an \<^verbatim>\<open>IOError\<close> and a \<^verbatim>\<open>json.JSONDecodeError\<close>
  with the default state.
\<close>

lemma load_state_recovers:
  "state_file w \<in> {Missing, Unreadable, Malformed} \<Longrightarrow> load_state w = Inr (PDict default_state)"
  by (auto simp: load_state_def)

text \<open>
  C4. The claim is that \<^verbatim>\<open>load_state\<close> never raises and returns the default state for
  every unreadable or malformed state file. A state file whose bytes are not text in
  the encoding of \<^verbatim>\<open>open\<close> makes \<^verbatim>\<open>json.load\<close> raise \<^verbatim>\<open>UnicodeDecodeError\<close>, which the
  \<^verbatim>\<open>except (json.JSONDecodeError, IOError)\<close> of line 84 does not catch: \<^verbatim>\<open>load_state\<close>
  raises there.
\<close>

theorem load_state_undecodable_raises:
  "load_state \<lparr>image_files = [''a.png''], state_file = Undecodable, writable = True\<rparr> =
     Inl UnicodeDecodeError"
  by (simp add: load_state_def)

text \<open>
  Further state files on which \<^verbatim>\<open>load_state\<close> raises: one for which \<^verbatim>\<open>exists()\<close> raises,
  and JSON text on which \<^verbatim>\<open>json.load\<close> raises something other than
  \<^verbatim>\<open>json.JSONDecodeError\<close>.
\<close>

lemma load_state_uncaught:
  "load_state (w\<lparr>state_file := Inaccessible\<rparr>) = Inl PermissionError"
  "load_state (w\<lparr>state_file := TooDeep\<rparr>) = Inl RecursionError"
  "load_state (w\<lparr>state_file := TooLong\<rparr>) = Inl ValueError"
  by (simp_all add: load_state_def)

subsection \<open>Applying the wallpaper\<close>

text \<open>
  C6, as the code has it, for a console that takes every message. \<^verbatim>\<open>set_wallpaper\<close>
  does not raise: it returns a boolean. When resolving the path raises, it returns
  false and calls neither tier. When the path resolves: the PowerShell tier is called
  exactly once, and succeeds exactly when the process returns 0 and prints
  \<^verbatim>\<open>SUCCESS\<close>; the call of \<^verbatim>\<open>SystemParametersInfoW\<close> follows, exactly once, when and only
  when the PowerShell tier did not succeed (an exception of \<^verbatim>\<open>subprocess.run\<close>, the
  timeout included, a return code other than 0, or no \<^verbatim>\<open>SUCCESS\<close> in the output); and
  the result is false only when the PowerShell tier did not succeed and
  \<^verbatim>\<open>SystemParametersInfoW\<close> raised or returned 0.
\<close>

theorem set_wallpaper_fallback:
  assumes "\<forall>m. console env m = None"
  shows "(\<exists>b. fst (set_wallpaper env p) = Inr b) \<and>
   (resolve env p = Inl e \<longrightarrow> set_wallpaper env p = (Inr False, [])) \<and>
   (resolve env p = Inr wp \<longrightarrow>
      fst (set_wallpaper_all_desktops_powershell env wp) =
        Inr (\<exists>out err. run_powershell env wp = Inr (0, out, err) \<and> sublist ''SUCCESS'' out) \<and>
      snd (set_wallpaper env p) =
        (if fst (set_wallpaper_all_desktops_powershell env wp) = Inr True
         then [PowerShell wp]
         else [PowerShell wp, SystemParametersInfo wp]) \<and>
      fst (set_wallpaper env p) =
        Inr (fst (set_wallpaper_all_desktops_powershell env wp) = Inr True \<or>
             (\<exists>result. SystemParametersInfoW env wp = Inr result \<and> result \<noteq> 0)))"
proof (intro conjI impI)
  note quiet = set_wallpaper_except_quiet [OF assms] powershell_tier_quiet [OF assms]
  have c: "console env FallingBack = None" using assms by simp
  show "\<exists>b. fst (set_wallpaper env p) = Inr b"
    by (auto simp: set_wallpaper_def quiet c split: sum.splits bool.splits)
  {
    assume "resolve env p = Inl e"
    then show "set_wallpaper env p = (Inr False, [])"
      by (simp add: set_wallpaper_def quiet)
  }
  {
    assume r: "resolve env p = Inr wp"
    show "fst (set_wallpaper_all_desktops_powershell env wp) =
        Inr (\<exists>out err. run_powershell env wp = Inr (0, out, err) \<and> sublist ''SUCCESS'' out)"
      by (simp add: quiet)
    show "snd (set_wallpaper env p) =
        (if fst (set_wallpaper_all_desktops_powershell env wp) = Inr True
         then [PowerShell wp]
         else [PowerShell wp, SystemParametersInfo wp])"
      by (auto simp: set_wallpaper_def r quiet c split: sum.splits bool.splits)
    show "fst (set_wallpaper env p) =
        Inr (fst (set_wallpaper_all_desktops_powershell env wp) = Inr True \<or>
             (\<exists>result. SystemParametersInfoW env wp = Inr result \<and> result \<noteq> 0))"
      by (auto simp: set_wallpaper_def r quiet c split: sum.splits bool.splits)
  }
qed

theorem set_wallpaper_fallback_witness:
  "(\<forall>m. console \<lparr>resolve = (\<lambda>p. Inr (''C:/w/'' @ p)),
      run_powershell = (\<lambda>p. Inr (0, ''MODULE_NOT_FOUND'', [])),
      SystemParametersInfoW = (\<lambda>p. Inr 1),
      console = (\<lambda>m. None)\<rparr> m = None) \<and>
   resolve \<lparr>resolve = (\<lambda>p. Inr (''C:/w/'' @ p)),
      run_powershell = (\<lambda>p. Inr (0, ''MODULE_NOT_FOUND'', [])),
      SystemParametersInfoW = (\<lambda>p. Inr 1),
      console = (\<lambda>m. None)\<rparr> ''a.png'' = Inr ''C:/w/a.png'' \<and>
   set_wallpaper \<lparr>resolve = (\<lambda>p. Inr (''C:/w/'' @ p)),
      run_powershell = (\<lambda>p. Inr (0, ''MODULE_NOT_FOUND'', [])),
      SystemParametersInfoW = (\<lambda>p. Inr 1),
      console = (\<lambda>m. None)\<rparr> ''a.png'' =
     (Inr True, [PowerShell ''C:/w/a.png'', SystemParametersInfo ''C:/w/a.png''])"
proof -
  let ?env = "\<lparr>resolve = (\<lambda>p. Inr (''C:/w/'' @ p)),
      run_powershell = (\<lambda>p. Inr (0, ''MODULE_NOT_FOUND'', [])),
      SystemParametersInfoW = (\<lambda>p. Inr 1),
      console = (\<lambda>m. None)\<rparr>"
  have q: "\<forall>m. console ?env m = None" by simp
  have h: "resolve ?env ''a.png'' = Inr ''C:/w/a.png''" by simp
  have t: "\<not> sublist ''SUCCESS'' ''MODULE_NOT_FOUND''"
    by (simp add: sublist_Cons_right prefix_Cons)
  note c = set_wallpaper_fallback [OF q, of "''a.png''" OSError "''C:/w/a.png''"]
  from c h t have p: "fst (set_wallpaper_all_desktops_powershell ?env ''C:/w/a.png'') = Inr False"
    by simp
  from c h p
  have "snd (set_wallpaper ?env ''a.png'') =
      [PowerShell ''C:/w/a.png'', SystemParametersInfo ''C:/w/a.png'']"
    and "fst (set_wallpaper ?env ''a.png'') = Inr True"
    by simp_all
  then have "set_wallpaper ?env ''a.png'' =
      (Inr True, [PowerShell ''C:/w/a.png'', SystemParametersInfo ''C:/w/a.png''])"
    by (simp add: prod_eq_iff)
  with q h show ?thesis by simp
qed

text \<open>
  The claim as written has the first tier attempted once for every path, and failure
  only after both tiers failed. Line 99 is inside the \<^verbatim>\<open>try\<close>: for a path whose
  resolution raises (here a \<^verbatim>\<open>RuntimeError\<close>), the result is false with no call made,
  on a machine where both tiers would have succeeded and the console takes every
  message.
\<close>

theorem set_wallpaper_unresolved_counterexample:
  "set_wallpaper \<lparr>resolve = (\<lambda>p. Inl RuntimeError),
      run_powershell = (\<lambda>p. Inr (0, ''SUCCESS'', [])),
      SystemParametersInfoW = (\<lambda>p. Inr 1),
      console = (\<lambda>m. None)\<rparr> ''loop.png'' = (Inr False, [])"
  by (simp add: set_wallpaper_def set_wallpaper_except_def)

text \<open>
  What the statement above leaves open is a \<^verbatim>\<open>print\<close> that raises. The \<^verbatim>\<open>print\<close> of the
  handler on line 116 has nothing around it, so its exception leaves \<^verbatim>\<open>set_wallpaper\<close>;
  and an exception of the \<^verbatim>\<open>print\<close> on line 106 is caught by that handler, which
  returns false before the second tier is tried.
\<close>

lemma set_wallpaper_print_raises:
  "set_wallpaper \<lparr>resolve = (\<lambda>p. Inl OSError),
      run_powershell = (\<lambda>p. Inr (0, ''SUCCESS'', [])),
      SystemParametersInfoW = (\<lambda>p. Inr 1),
      console = (\<lambda>m. if m = ErrorSettingWallpaper OSError then Some UnicodeEncodeError
                     else None)\<rparr> ''a.png'' = (Inl UnicodeEncodeError, [])"
  by (simp add: set_wallpaper_def set_wallpaper_except_def)

lemma set_wallpaper_print_skips_fallback:
  "set_wallpaper \<lparr>resolve = (\<lambda>p. Inr p),
      run_powershell = (\<lambda>p. Inl TimeoutExpired),
      SystemParametersInfoW = (\<lambda>p. Inr 1),
      console = (\<lambda>m. if m = FallingBack then Some OSError else None)\<rparr> ''a.png'' =
     (Inr False, [PowerShell ''a.png''])"
  by (simp add: set_wallpaper_def set_wallpaper_except_def
      set_wallpaper_all_desktops_powershell_def powershell_except_def)

subsection \<open>Reset\<close>




subsection \<open>The invariant of the persisted index\<close>




subsection \<open>Sequential order from no state\<close>

text \<open>
  C1, as the code has it. For every folder with \<open>N \<ge> 1\<close> images and no state file:
  \<^item> when the state file can be written, of any number of sequential rotations in a
    row, call number \<open>k\<close> (counted from 0) returns the image at index \<open>k mod N\<close>:
    image 0, image 1, and so on, and call \<open>N + 1\<close> is back at image 0;
  \<^item> when the state file cannot be written, every call returns image 0.
  And each sequential call on a persisted state whose count is the length of the
  listing and whose index is the int \<open>p\<close> returns the image at index \<open>(p + 1) mod N\<close>.
\<close>

theorem sequential_rotation_cycles:
  "(image_files w \<noteq> [] \<and> state_file w = Missing \<and> writable w \<longrightarrow>
      fst (rotations (map (\<lambda>r. (r, ''sequential'')) rs) w) =
        map (\<lambda>k. Inr (Some (image_files w ! (k mod length (image_files w)))))
          [0..<length rs]) \<and>
   (image_files w \<noteq> [] \<and> state_file w = Missing \<and> \<not> writable w \<longrightarrow>
      fst (rotations (map (\<lambda>r. (r, ''sequential'')) rs) w) =
        replicate (length rs) (Inr (Some (image_files w ! 0)))) \<and>
   (image_files w \<noteq> [] \<and> load_state w = Inr (PDict d) \<and>
    \<not> int_ne (int (length (image_files w))) (dict_get d ''image_count'' (PInt 0)) \<and>
    dict_get d ''current_index'' (PInt (- 1)) = PInt p \<longrightarrow>
      fst (get_next_wallpaper r ''sequential'' w) =
        Inr (Some (image_files w ! nat ((p + 1) mod int (length (image_files w))))))"
proof (intro conjI impI)
  assume a: "image_files w \<noteq> [] \<and> state_file w = Missing \<and> writable w"
  let ?n = "length (image_files w)"
  have load: "load_state w = Inr (PDict default_state)"
    using a by (simp add: load_state_def)
  have "int_ne (int ?n) (dict_get default_state ''image_count'' (PInt 0))"
    using a by (simp add: default_state_def dict_get_def)
  then have cur: "current_index ?n default_state = PInt (- 1)"
    by (rule current_index_drift)
  have "nat ((- 1 + 1 + int k) mod int ?n) = k mod ?n" for k
    by (simp add: nat_mod_distrib)
  with rotations_sequential_from [OF _ load cur, of rs] a
  show "fst (rotations (map (\<lambda>r. (r, ''sequential'')) rs) w) =
      map (\<lambda>k. Inr (Some (image_files w ! (k mod ?n)))) [0..<length rs]"
    by simp
next
  assume "image_files w \<noteq> [] \<and> state_file w = Missing \<and> \<not> writable w"
  then show "fst (rotations (map (\<lambda>r. (r, ''sequential'')) rs) w) =
      replicate (length rs) (Inr (Some (image_files w ! 0)))"
    by (simp add: rotations_sequential_unwritable)
next
  assume a: "image_files w \<noteq> [] \<and> load_state w = Inr (PDict d) \<and>
    \<not> int_ne (int (length (image_files w))) (dict_get d ''image_count'' (PInt 0)) \<and>
    dict_get d ''current_index'' (PInt (- 1)) = PInt p"
  then have "add_one (current_index (length (image_files w)) d) = Inr (p + 1)"
    by (simp add: current_index_same_count)
  from get_next_wallpaper_sequential [OF _ _ _ this, of "''sequential''" r] a
  show "fst (get_next_wallpaper r ''sequential'' w) =
      Inr (Some (image_files w ! nat ((p + 1) mod int (length (image_files w)))))"
    by simp
qed

theorem sequential_rotation_cycles_witness:
  "image_files \<lparr>image_files = [''a.png'', ''b.jpg'', ''c.gif''],
      state_file = Missing, writable = True\<rparr> \<noteq> [] \<and>
   state_file \<lparr>image_files = [''a.png'', ''b.jpg'', ''c.gif''],
      state_file = Missing, writable = True\<rparr> = Missing \<and>
   writable \<lparr>image_files = [''a.png'', ''b.jpg'', ''c.gif''],
      state_file = Missing, writable = True\<rparr> \<and>
   fst (rotations (map (\<lambda>r. (r, ''sequential'')) [0, 0, 0, 0])
     \<lparr>image_files = [''a.png'', ''b.jpg'', ''c.gif''],
      state_file = Missing, writable = True\<rparr>) =
   [Inr (Some ''a.png''), Inr (Some ''b.jpg''), Inr (Some ''c.gif''), Inr (Some ''a.png'')]"
proof -
  let ?w = "\<lparr>image_files = [''a.png'', ''b.jpg'', ''c.gif''],
      state_file = Missing, writable = True\<rparr>"
  have h: "image_files ?w \<noteq> [] \<and> state_file ?w = Missing \<and> writable ?w" by simp
  from sequential_rotation_cycles [of ?w "[0, 0, 0, 0]"] h
  have "fst (rotations (map (\<lambda>r. (r, ''sequential'')) [0, 0, 0, 0]) ?w) =
      map (\<lambda>k. Inr (Some (image_files ?w ! (k mod length (image_files ?w)))))
        [0..<length [0, 0, 0, 0 :: nat]]"
    by blast
  also have "\<dots> = [Inr (Some ''a.png''), Inr (Some ''b.jpg''), Inr (Some ''c.gif''),
      Inr (Some ''a.png'')]"
    by (simp add: upt_conv_Cons)
  finally show ?thesis using h by simp
qed

text \<open>
  The claim as written is for every folder. In a folder of three images where the
  state file cannot be written, \<^verbatim>\<open>save_state\<close> only warns (lines 89 to 93), and the second
  call returns image 0 again, not image 1.
\<close>

theorem sequential_rotation_unsaved_counterexample:
  "fst (rotations [(0, ''sequential''), (0, ''sequential'')]
     \<lparr>image_files = [''a.png'', ''b.jpg'', ''c.gif''],
      state_file = Missing, writable = False\<rparr>) =
   [Inr (Some ''a.png''), Inr (Some ''a.png'')] \<and>
   [''a.png'', ''b.jpg'', ''c.gif''] ! 1 \<noteq> ''a.png''"
  by (simp add: get_next_wallpaper_def load_state_def default_state_def current_index_def
      dict_get_def next_index_def getitem_def save_state_def)

end
